theory Spec2Isabelle
  imports Complex_Main
begin

section \<open>ERA5 heights, pressures and Steffen interpolation (lagtraj)\<close>

text \<open>
  A shallow embedding of \<^verbatim>\<open>lagtraj/utils/era5_heights_pressures.py\<close>: the hydrostatic
  integration \<^verbatim>\<open>calculate_heights_and_pressures\<close>, the column interpolator
  \<^verbatim>\<open>steffen_3d\<close> and the part of \<^verbatim>\<open>era5_on_height_levels\<close> that drives it.

  Floating-point numbers are modelled by exact reals. The arrays are indexed
  \<^verbatim>\<open>[k, j, i]\<close> and both kernels treat every column \<^verbatim>\<open>[:, j, i]\<close> on its own, so a
  three-dimensional array is a list of columns (in the order of the \<^verbatim>\<open>i\<close>, \<^verbatim>\<open>j\<close> loops)
  and a column is the list of its values along \<^verbatim>\<open>k\<close>.

  Exceptions are values of the type \<open>error\<close>. In \<^verbatim>\<open>steffen_3d\<close> a division by zero gets
  a value of its own: under numba it raises \<^verbatim>\<open>ZeroDivisionError\<close>, under NumPy alone it
  continues with an infinity or a NaN, which no real number stands for, and later
  comparisons may turn it into a finite value again. The model stops there and says
  nothing about such a run; likewise where an array is read out of its range, which
  NumPy refuses and numba does not check. The theorems on \<^verbatim>\<open>steffen_3d\<close> are about
  strictly ascending levels and arrays of equal length, where neither happens.
\<close>

datatype error =
    NonMonotonic           \<comment> \<open>\<^verbatim>\<open>Exception("Non-montonic increase in input_levels")\<close>\<close>
  | IndexError             \<comment> \<open>an array is read or written out of its range\<close>
  | DivisionByZero         \<comment> \<open>a float division by zero in \<^verbatim>\<open>steffen_3d\<close>\<close>
  | UnboundLocalError      \<comment> \<open>a local variable is read before it is assigned\<close>
  | KeyError               \<comment> \<open>a dataset has no variable of that name\<close>
  | HeightsNotFloat        \<comment> \<open>\<^verbatim>\<open>Exception("Heights need to be floating numbers, ...")\<close>\<close>

subsection \<open>Constants\<close>

definition rd :: real where "rd = 28706 / 100"
definition rg :: real where "rg = 980665 / 100000"
definition rv_over_rd_minus_one :: real where "rv_over_rd_minus_one = 609133 / 1000000"

subsection \<open>\<^verbatim>\<open>steffen_3d\<close>: the derivative at every node\<close>

text \<open>\<^verbatim>\<open>np.copysign(x, y)\<close>: the magnitude of \<open>x\<close> with the sign of \<open>y\<close>.\<close>

definition copysign :: "real \<Rightarrow> real \<Rightarrow> real" where
  "copysign x y = (if y < 0 then - \<bar>x\<bar> else \<bar>x\<bar>)"

text \<open>
  The branch at an end point, lines 152--160 with (near, far) = (lower, upper) and lines
  203--211 with (near, far) = (upper, lower).
\<close>

definition end_slope :: "real \<Rightarrow> real \<Rightarrow> real \<Rightarrow> real \<Rightarrow> real" where
  "end_slope delta_near delta_far slope_near slope_far =
     (let weighted_slope =
            slope_near * (1 + delta_near / (delta_near + delta_far))
            - slope_far * delta_near / (delta_near + delta_far)
      in if weighted_slope * slope_near \<le> 0 then 0
         else if \<bar>weighted_slope\<bar> > 2 * \<bar>slope_near\<bar> then 2 * slope_near
         else weighted_slope)"

text \<open>The branch at an intermediate point, lines 172--187.\<close>

definition mid_slope :: "real \<Rightarrow> real \<Rightarrow> real \<Rightarrow> real \<Rightarrow> real" where
  "mid_slope delta_lower delta_upper slope_lower slope_upper =
     (let weighted_slope =
            (slope_lower * delta_upper + slope_upper * delta_lower)
            / (delta_lower + delta_upper)
      in if slope_lower * slope_upper \<le> 0 then 0
         else if \<bar>weighted_slope\<bar> > 2 * \<bar>slope_lower\<bar>
           then copysign 2 slope_lower * min \<bar>slope_lower\<bar> \<bar>slope_upper\<bar>
         else if \<bar>weighted_slope\<bar> > 2 * \<bar>slope_upper\<bar>
           then copysign 2 slope_lower * min \<bar>slope_lower\<bar> \<bar>slope_upper\<bar>
         else weighted_slope)"

text \<open>
  The first point, lines 143--160. \<open>length input_data\<close> is \<^verbatim>\<open>k_max\<close>; the checks are in
  the order in which the source reads the arrays and divides.
\<close>

definition first_point :: "real list \<Rightarrow> real list \<Rightarrow> error + real" where
  "first_point input_data input_levels =
     (if length input_levels < 3 then Inl IndexError
      else
        let delta_lower = input_levels ! 1 - input_levels ! 0;
            delta_upper = input_levels ! 2 - input_levels ! 1
        in if delta_lower < 0 then Inl NonMonotonic
           else if delta_upper < 0 then Inl NonMonotonic
           else if length input_data < 2 then Inl IndexError
           else if delta_lower = 0 then Inl DivisionByZero
           else if length input_data < 3 then Inl IndexError
           else if delta_upper = 0 \<or> delta_lower + delta_upper = 0 then Inl DivisionByZero
           else
             let slope_lower = (input_data ! 1 - input_data ! 0) / delta_lower;
                 slope_upper = (input_data ! 2 - input_data ! 1) / delta_upper
             in Inr (end_slope delta_lower delta_upper slope_lower slope_upper))"

text \<open>
  One pass of the loop over the intermediate points, lines 164--187, for
  \<open>1 \<le> k \<le> k_max - 2\<close>. No difference of levels is compared with zero here.
\<close>

definition intermediate_point :: "real list \<Rightarrow> real list \<Rightarrow> nat \<Rightarrow> error + real" where
  "intermediate_point input_data input_levels k =
     (if length input_levels \<le> k + 1 then Inl IndexError
      else
        let delta_lower = input_levels ! k - input_levels ! (k - 1);
            delta_upper = input_levels ! (k + 1) - input_levels ! k
        in if delta_lower = 0 \<or> delta_upper = 0 \<or> delta_lower + delta_upper = 0
           then Inl DivisionByZero
           else
             let slope_lower = (input_data ! k - input_data ! (k - 1)) / delta_lower;
                 slope_upper = (input_data ! (k + 1) - input_data ! k) / delta_upper
             in Inr (mid_slope delta_lower delta_upper slope_lower slope_upper))"

fun intermediate_points :: "real list \<Rightarrow> real list \<Rightarrow> nat list \<Rightarrow> error + real list" where
  "intermediate_points input_data input_levels [] = Inr []"
| "intermediate_points input_data input_levels (k # ks) =
     (case intermediate_point input_data input_levels k of
        Inl e \<Rightarrow> Inl e
      | Inr s \<Rightarrow>
          (case intermediate_points input_data input_levels ks of
             Inl e \<Rightarrow> Inl e
           | Inr ss \<Rightarrow> Inr (s # ss)))"

text \<open>
  The last point, lines 190--211. It is reached only after the first point and the loop,
  hence with \<open>3 \<le> k_max \<le> length input_levels\<close>: every index is in range.
\<close>

definition last_point :: "real list \<Rightarrow> real list \<Rightarrow> error + real" where
  "last_point input_data input_levels =
     (let k_max_minus = length input_data - 1;
          delta_lower = input_levels ! (k_max_minus - 1) - input_levels ! (k_max_minus - 2);
          delta_upper = input_levels ! k_max_minus - input_levels ! (k_max_minus - 1)
      in if delta_lower = 0 \<or> delta_upper = 0 \<or> delta_upper + delta_lower = 0
         then Inl DivisionByZero
         else
           let slope_lower =
                 (input_data ! (k_max_minus - 1) - input_data ! (k_max_minus - 2)) / delta_lower;
               slope_upper =
                 (input_data ! k_max_minus - input_data ! (k_max_minus - 1)) / delta_upper
           in Inr (end_slope delta_upper delta_lower slope_upper slope_lower))"

text \<open>The array \<^verbatim>\<open>linear_slope[:, j, i]\<close> of one column.\<close>

definition linear_slope :: "real list \<Rightarrow> real list \<Rightarrow> error + real list" where
  "linear_slope input_data input_levels =
     (case first_point input_data input_levels of
        Inl e \<Rightarrow> Inl e
      | Inr s0 \<Rightarrow>
          (case intermediate_points input_data input_levels [1..<length input_data - 1] of
             Inl e \<Rightarrow> Inl e
           | Inr ss \<Rightarrow>
               (case last_point input_data input_levels of
                  Inl e \<Rightarrow> Inl e
                | Inr sl \<Rightarrow> Inr (s0 # ss @ [sl]))))"

subsection \<open>\<^verbatim>\<open>steffen_3d\<close>: the loop over the output points\<close>

text \<open>
  The \<^verbatim>\<open>while\<close> loop of lines 216--219: the cursor \<^verbatim>\<open>k_temp\<close> moves forward until it
  stands on a level that is not below the output level, or on \<^verbatim>\<open>k_max\<close>.
\<close>

function advance :: "real list \<Rightarrow> nat \<Rightarrow> nat \<Rightarrow> real \<Rightarrow> nat" where
  "advance input_levels k_max k_temp out_level =
     (if k_temp < k_max \<and> input_levels ! k_temp < out_level
      then advance input_levels k_max (k_temp + 1) out_level
      else k_temp)"
  by pat_completeness auto
termination
  by (relation "measure (\<lambda>(input_levels, k_max, k_temp, out_level). k_max - k_temp)") auto

declare advance.simps [simp del]

text \<open>
  Lines 220--251 for one output point, given where the cursor stands. \<open>None\<close> is the
  missing value \<^verbatim>\<open>np.nan\<close>.
\<close>

definition output_point ::
  "real list \<Rightarrow> real list \<Rightarrow> real list \<Rightarrow> real \<Rightarrow> bool \<Rightarrow> nat \<Rightarrow> real \<Rightarrow> error + real option" where
  "output_point input_data input_levels slopes lower_extrapolation_surface
       lower_extrapolation_with_gradient k_temp out_level =
     (if k_temp > 0 \<and> k_temp < length input_data then
        let k_high = k_temp;
            k_low = k_high - 1;
            delta = input_levels ! k_high - input_levels ! k_low
        in if delta = 0 then Inl DivisionByZero
           else
             let slope = (input_data ! k_high - input_data ! k_low) / delta;
                 a = (slopes ! k_low + slopes ! k_high - 2 * slope) / (delta * delta);
                 b = (3 * slope - 2 * slopes ! k_low - slopes ! k_high) / delta;
                 c = slopes ! k_low;
                 d = input_data ! k_low;
                 t = out_level - input_levels ! k_low;
                 t_2 = t * t;
                 t_3 = t_2 * t
             in Inr (Some (a * t_3 + b * t_2 + c * t + d))
      else if k_temp = 0 \<and> out_level \<ge> lower_extrapolation_surface then
        if lower_extrapolation_with_gradient
        then Inr (Some (input_data ! 0 + slopes ! 0 * (out_level - input_levels ! 0)))
        else Inr (Some (input_data ! 0))
      else Inr None)"

text \<open>The loop of line 215: the cursor is kept from one output point to the next.\<close>

fun output_loop ::
  "real list \<Rightarrow> real list \<Rightarrow> real list \<Rightarrow> real \<Rightarrow> bool \<Rightarrow> nat \<Rightarrow> real list
     \<Rightarrow> error + real option list" where
  "output_loop input_data input_levels slopes les grad k_temp [] = Inr []"
| "output_loop input_data input_levels slopes les grad k_temp (out_level # rest) =
     (let k_temp' = advance input_levels (length input_data) k_temp out_level
      in case output_point input_data input_levels slopes les grad k_temp' out_level of
           Inl e \<Rightarrow> Inl e
         | Inr y \<Rightarrow>
             (case output_loop input_data input_levels slopes les grad k_temp' rest of
                Inl e \<Rightarrow> Inl e
              | Inr ys \<Rightarrow> Inr (y # ys)))"

text \<open>The body of the loops over \<^verbatim>\<open>i\<close> and \<^verbatim>\<open>j\<close>: one column.\<close>

definition steffen_column ::
  "real list \<Rightarrow> real list \<Rightarrow> real list \<Rightarrow> real \<Rightarrow> bool \<Rightarrow> error + real option list" where
  "steffen_column input_data input_levels output_level_array lower_extrapolation_surface
       lower_extrapolation_with_gradient =
     (case linear_slope input_data input_levels of
        Inl e \<Rightarrow> Inl e
      | Inr slopes \<Rightarrow>
          output_loop input_data input_levels slopes lower_extrapolation_surface
            lower_extrapolation_with_gradient 0 output_level_array)"

text \<open>
  \<^verbatim>\<open>steffen_3d\<close>: the columns one after the other; the first exception ends the call.
  A column is given by its data, its levels and its lower extrapolation surface.
\<close>

fun steffen_3d ::
  "(real list \<times> real list \<times> real) list \<Rightarrow> real list \<Rightarrow> bool
     \<Rightarrow> error + real option list list" where
  "steffen_3d [] output_level_array grad = Inr []"
| "steffen_3d ((input_data, input_levels, les) # columns) output_level_array grad =
     (case steffen_column input_data input_levels output_level_array les grad of
        Inl e \<Rightarrow> Inl e
      | Inr col \<Rightarrow>
          (case steffen_3d columns output_level_array grad of
             Inl e \<Rightarrow> Inl e
           | Inr cols \<Rightarrow> Inr (col # cols)))"

subsection \<open>\<^verbatim>\<open>calculate_heights_and_pressures\<close>\<close>

text \<open>
  The four arrays of one column, from the top (index 0) to the surface. A height is
  \<open>None\<close> when the float is not a finite number (the logarithm of a ratio that is not
  positive); every later height computed from it is not finite either.
\<close>

record profile =
  height_h :: "real option list"
  height_f :: "real option list"
  p_h :: "real list"
  p_f :: "real list"

text \<open>
  The scalars carried through the loop over the levels; \<open>tvrd_over_rg\<close> is \<open>None\<close>
  until line 95 assigns it.
\<close>

record loop_state = profile +
  height_h_k_plus :: "real option"
  p_h_k_plus :: real
  tvrd_over_rg :: "real option"

text \<open>
  \<^verbatim>\<open>np.log(x / y)\<close> on NumPy floats: a zero divisor gives an infinity or a NaN, and the
  logarithm of a ratio that is not a positive number is an infinity or a NaN, so the
  result is \<open>None\<close>. (Under numba the division by zero raises, and the call has no
  result at all.)
\<close>

definition log_ratio :: "real \<Rightarrow> real \<Rightarrow> real option" where
  "log_ratio x y =
     (if y = 0 then None
      else if x / y \<le> 0 then None
      else Some (ln (x / y)))"

text \<open>\<^verbatim>\<open>height + (tvrd_over_rg * log)\<close> on heights and logarithms that may not be finite.\<close>

definition integrate :: "real option \<Rightarrow> real \<Rightarrow> real option \<Rightarrow> real option" where
  "integrate height tv lg =
     (case height of
        None \<Rightarrow> None
      | Some z \<Rightarrow> (case lg of None \<Rightarrow> None | Some x \<Rightarrow> Some (z + tv * x)))"

text \<open>
  The body of the loop over \<^verbatim>\<open>k\<close>, lines 88--110. The lists of the state hold the array
  entries written so far, those above index \<open>k\<close>.
\<close>

definition level_step ::
  "real \<Rightarrow> real list \<Rightarrow> real list \<Rightarrow> real list \<Rightarrow> real list \<Rightarrow> nat \<Rightarrow> loop_state
     \<Rightarrow> error + loop_state" where
  "level_step p_s a_coeffs b_coeffs t_field q_field k st =
     (if length a_coeffs \<le> k \<or> length b_coeffs \<le> k then Inl IndexError
      else
        let p_h_k = a_coeffs ! k + (b_coeffs ! k * p_s);
            p_f_k_plus = (1 / 2) * (p_h_k + p_h_k_plus st)
        in if length t_field \<le> k \<or> length q_field \<le> k then Inl IndexError
           else
             let tv = (rd / rg) * t_field ! k * (1 + rv_over_rd_minus_one * q_field ! k);
                 log_f = log_ratio (p_h_k_plus st) p_f_k_plus;
                 log_h = log_ratio (p_h_k_plus st) p_h_k;
                 height_h_k = integrate (height_h_k_plus st) tv log_h
             in Inr (st\<lparr>height_f := integrate (height_h_k_plus st) tv log_f # height_f st,
                        height_h := height_h_k # height_h st,
                        p_h := p_h_k # p_h st,
                        p_f := p_f_k_plus # p_f st,
                        height_h_k_plus := height_h_k,
                        p_h_k_plus := p_h_k,
                        tvrd_over_rg := Some tv\<rparr>))"

text \<open>\<^verbatim>\<open>for k in range(k_max - 2, -1, -1)\<close>: \<open>level_loop \<dots> n\<close> runs \<open>k = n - 1, \<dots>, 0\<close>.\<close>

fun level_loop ::
  "real \<Rightarrow> real list \<Rightarrow> real list \<Rightarrow> real list \<Rightarrow> real list \<Rightarrow> nat \<Rightarrow> loop_state
     \<Rightarrow> error + loop_state" where
  "level_loop p_s a_coeffs b_coeffs t_field q_field 0 st = Inr st"
| "level_loop p_s a_coeffs b_coeffs t_field q_field (Suc k) st =
     (case level_step p_s a_coeffs b_coeffs t_field q_field k st of
        Inl e \<Rightarrow> Inl e
      | Inr st' \<Rightarrow> level_loop p_s a_coeffs b_coeffs t_field q_field k st')"

text \<open>The body of the loops over \<^verbatim>\<open>i\<close> and \<^verbatim>\<open>j\<close>, lines 81--115: one column.\<close>

definition heights_and_pressures_column ::
  "real \<Rightarrow> real \<Rightarrow> real list \<Rightarrow> real list \<Rightarrow> real list \<Rightarrow> real list \<Rightarrow> error + profile" where
  "heights_and_pressures_column p_s z_s a_coeffs b_coeffs t_field q_field =
     (let k_max = length t_field
      in if k_max = 0 then Inl IndexError
         else
           case level_loop p_s a_coeffs b_coeffs t_field q_field (k_max - 1)
                  \<lparr>height_h = [Some z_s], height_f = [], p_h = [p_s], p_f = [],
                   height_h_k_plus = Some z_s, p_h_k_plus = p_s, tvrd_over_rg = None\<rparr> of
             Inl e \<Rightarrow> Inl e
           | Inr st \<Rightarrow>
               let p_f_k_plus = (1 / 2) * p_h_k_plus st
               in case tvrd_over_rg st of
                    None \<Rightarrow> Inl UnboundLocalError
                  | Some tv \<Rightarrow>
                      Inr \<lparr>height_h = height_h st,
                           height_f =
                             integrate (height_h_k_plus st) tv
                               (log_ratio (p_h_k_plus st) p_f_k_plus) # height_f st,
                           p_h = p_h st,
                           p_f = p_f_k_plus # p_f st\<rparr>)"

text \<open>
  \<^verbatim>\<open>calculate_heights_and_pressures\<close>: a column is given by its surface pressure, its
  surface height, its temperatures and its specific humidities.
\<close>

fun calculate_heights_and_pressures ::
  "(real \<times> real \<times> real list \<times> real list) list \<Rightarrow> real list \<Rightarrow> real list
     \<Rightarrow> error + profile list" where
  "calculate_heights_and_pressures [] a_coeffs b_coeffs = Inr []"
| "calculate_heights_and_pressures ((p_s, z_s, t_field, q_field) # columns) a_coeffs b_coeffs =
     (case heights_and_pressures_column p_s z_s a_coeffs b_coeffs t_field q_field of
        Inl e \<Rightarrow> Inl e
      | Inr col \<Rightarrow>
          (case calculate_heights_and_pressures columns a_coeffs b_coeffs of
             Inl e \<Rightarrow> Inl e
           | Inr cols \<Rightarrow> Inr (col # cols)))"

subsection \<open>\<^verbatim>\<open>era5_on_height_levels\<close>\<close>

text \<open>
  The requested heights are a NumPy array, of integers or of floats. The dataset at one
  time index is given by its variables of dimensions (time, level, latitude, longitude),
  each a list of columns from the top level to the surface, and by the land-sea mask of
  every column.
\<close>

datatype heights = IntArray "int list" | FloatArray "real list"

record time_slice =
  variables :: "(string \<times> real list list) list"
  lsm :: "real list"

text \<open>Lines 336--343 at one horizontal point.\<close>

definition sea_mask :: "real \<Rightarrow> real \<Rightarrow> bool" where
  "sea_mask height_h_surface lsm_value =
     (height_h_surface < 5 \<and> height_h_surface > 1 / 10 ^ 6 \<and> lsm_value < 2 / 10)"

definition lower_extrapolation_with_mask :: "real \<Rightarrow> real \<Rightarrow> real" where
  "lower_extrapolation_with_mask height_h_surface lsm_value =
     (if sea_mask height_h_surface lsm_value then - (1 / 10 ^ 6) else height_h_surface)"

text \<open>The loop over the variables, lines 344--367.\<close>

fun remap_variables ::
  "real list list \<Rightarrow> real list list \<Rightarrow> real list \<Rightarrow> real list \<Rightarrow> (string \<times> real list list) list
     \<Rightarrow> error + (string \<times> real option list list) list" where
  "remap_variables h_f_inverse h_h_inverse lower heights_array [] = Inr []"
| "remap_variables h_f_inverse h_h_inverse lower heights_array ((variable, field) # rest) =
     (let h_inverse =
            (if variable \<in> set [''height_h'', ''p_h''] then h_h_inverse else h_f_inverse);
          field_p_levels = map rev field;
          grad = (variable \<in> set [''p_h'', ''p_f'', ''height_h'', ''height_f''])
      in case steffen_3d (zip field_p_levels (zip h_inverse lower)) heights_array grad of
           Inl e \<Rightarrow> Inl e
         | Inr out \<Rightarrow>
             (case remap_variables h_f_inverse h_h_inverse lower heights_array rest of
                Inl e \<Rightarrow> Inl e
              | Inr outs \<Rightarrow> Inr ((variable, out) # outs)))"

text \<open>One pass of the loop over the time indices, lines 334--367.\<close>

definition remap_time_step ::
  "time_slice \<Rightarrow> real list \<Rightarrow> error + (string \<times> real option list list) list" where
  "remap_time_step ds heights_array =
     (case map_of (variables ds) ''height_f'' of
        None \<Rightarrow> Inl KeyError
      | Some hf \<Rightarrow>
          (case map_of (variables ds) ''height_h'' of
             None \<Rightarrow> Inl KeyError
           | Some hh \<Rightarrow>
               if [] \<in> set hh then Inl IndexError
               else
                 let h_f_inverse = map rev hf;
                     h_h_inverse = map rev hh;
                     lower = map (\<lambda>(col, l). lower_extrapolation_with_mask (last col) l)
                               (zip hh (lsm ds))
                 in remap_variables h_f_inverse h_h_inverse lower heights_array (variables ds)))"

fun remap_time_steps ::
  "time_slice list \<Rightarrow> real list \<Rightarrow> error + (string \<times> real option list list) list list" where
  "remap_time_steps [] heights_array = Inr []"
| "remap_time_steps (ds # rest) heights_array =
     (case remap_time_step ds heights_array of
        Inl e \<Rightarrow> Inl e
      | Inr out \<Rightarrow>
          (case remap_time_steps rest heights_array of
             Inl e \<Rightarrow> Inl e
           | Inr outs \<Rightarrow> Inr (out # outs)))"

text \<open>
  \<^verbatim>\<open>era5_on_height_levels\<close>: the test of line 299 on \<^verbatim>\<open>heights_array[0]\<close>, then the
  remapping of every time index.
\<close>

definition era5_on_height_levels ::
  "time_slice list \<Rightarrow> heights \<Rightarrow> error + (string \<times> real option list list) list list" where
  "era5_on_height_levels ds_pressure_levels heights_array =
     (case heights_array of
        IntArray [] \<Rightarrow> Inl IndexError
      | IntArray (h # hs) \<Rightarrow> Inl HeightsNotFloat
      | FloatArray [] \<Rightarrow> Inl IndexError
      | FloatArray (h # hs) \<Rightarrow> remap_time_steps ds_pressure_levels (h # hs))"
subsection \<open>Notions used in the statements\<close>


text \<open>The slope of the straight line from node \<open>k\<close> to node \<open>k + 1\<close>.\<close>

definition secant :: "real list \<Rightarrow> real list \<Rightarrow> nat \<Rightarrow> real" where
  "secant input_data input_levels k =
     (input_data ! (k + 1) - input_data ! k) / (input_levels ! (k + 1) - input_levels ! k)"

text \<open>
  The derivative that \<^verbatim>\<open>steffen_3d\<close> stores at node \<open>k\<close> when no check fails, see
  \<open>linear_slope_strict\<close> below.
\<close>

definition node_slope :: "real list \<Rightarrow> real list \<Rightarrow> nat \<Rightarrow> real" where
  "node_slope input_data input_levels k =
     (let n = length input_data in
      if k = 0 then
        end_slope (input_levels ! 1 - input_levels ! 0) (input_levels ! 2 - input_levels ! 1)
          (secant input_data input_levels 0) (secant input_data input_levels 1)
      else if k = n - 1 then
        end_slope (input_levels ! (n - 1) - input_levels ! (n - 2))
          (input_levels ! (n - 2) - input_levels ! (n - 3))
          (secant input_data input_levels (n - 2)) (secant input_data input_levels (n - 3))
      else
        mid_slope (input_levels ! k - input_levels ! (k - 1))
          (input_levels ! (k + 1) - input_levels ! k)
          (secant input_data input_levels (k - 1)) (secant input_data input_levels k))"

text \<open>
  The height of the pressure \<open>p\<close> in an atmosphere of constant temperature \<open>t\<close> without
  humidity, above the level of pressure \<open>p0\<close>; the invariant of the loop over the levels
  on such a column.
\<close>

definition isothermal_height :: "real \<Rightarrow> real \<Rightarrow> real \<Rightarrow> real option" where
  "isothermal_height t p0 p = Some ((rd * t / rg) * ln (p0 / p))"

section \<open>Properties\<close>

subsection \<open>Evaluation on concrete columns\<close>

lemmas steffen_eval =
  steffen_column_def linear_slope_def first_point_def intermediate_point_def last_point_def
  end_slope_def mid_slope_def copysign_def output_point_def advance.simps upt_rec Let_def

lemmas hydro_eval =
  heights_and_pressures_column_def level_step_def log_ratio_def integrate_def Let_def

lemmas remap_eval = remap_time_step_def lower_extrapolation_with_mask_def sea_mask_def
  steffen_eval
subsection \<open>The derivatives stay within twice the adjacent slopes\<close>




subsection \<open>The cubic of one segment stays between its end values\<close>





subsection \<open>The array of derivatives\<close>

lemma strict_nth:
  "sorted_wrt (<) (L :: real list) \<Longrightarrow> i < j \<Longrightarrow> j < length L \<Longrightarrow> L ! i < L ! j"
  by (simp add: sorted_wrt_iff_nth_less)

lemma intermediate_point_strict:
  assumes "sorted_wrt (<) L" "1 \<le> k" "k + 1 < length L"
  shows "intermediate_point V L k =
     Inr (mid_slope (L ! k - L ! (k - 1)) (L ! (k + 1) - L ! k) (secant V L (k - 1)) (secant V L k))"
proof -
  have a: "L ! (k - 1) < L ! k" using assms by (intro strict_nth) auto
  have b: "L ! k < L ! (k + 1)" using assms by (intro strict_nth) auto
  from a b assms(2) show ?thesis
    using assms(3) by (simp add: intermediate_point_def secant_def Let_def)
qed

lemma intermediate_points_strict:
  assumes "sorted_wrt (<) L" "\<forall>k\<in>set ks. 1 \<le> k \<and> k + 1 < length L"
  shows "intermediate_points V L ks =
     Inr (map (\<lambda>k. mid_slope (L ! k - L ! (k - 1)) (L ! (k + 1) - L ! k)
                     (secant V L (k - 1)) (secant V L k)) ks)"
  using assms(2)
proof (induction ks)
  case Nil
  then show ?case by simp
next
  case (Cons k ks)
  then show ?case using intermediate_point_strict [OF assms(1), of k V] by simp
qed

lemma first_point_strict:
  assumes "sorted_wrt (<) L" "3 \<le> length V" "length V \<le> length L"
  shows "first_point V L = Inr (node_slope V L 0)"
proof -
  have a: "L ! 0 < L ! 1" using assms by (intro strict_nth) auto
  have b: "L ! 1 < L ! 2" using assms by (intro strict_nth) auto
  from a b assms(2,3) show ?thesis
    by (simp add: first_point_def node_slope_def secant_def Let_def eval_nat_numeral)
qed

lemma last_point_strict:
  assumes "sorted_wrt (<) L" "3 \<le> length V" "length V \<le> length L"
  shows "last_point V L = Inr (node_slope V L (length V - 1))"
proof -
  define n where "n = length V"
  have a: "L ! (n - 3) < L ! (n - 2)" using assms by (intro strict_nth) (auto simp: n_def)
  have b: "L ! (n - 2) < L ! (n - 1)" using assms by (intro strict_nth) (auto simp: n_def)
  have i: "Suc (n - Suc (Suc 0)) = n - Suc 0" "Suc (n - Suc (Suc (Suc 0))) = n - Suc (Suc 0)"
    "\<not> n \<le> Suc 0"
    using assms(2) by (auto simp: n_def)
  from a b show ?thesis
    unfolding last_point_def node_slope_def secant_def Let_def n_def [symmetric]
    by (simp add: i eval_nat_numeral)
qed

lemma upt_ends: "3 \<le> n \<Longrightarrow> [0..<n] = 0 # [1..<n - 1] @ [n - 1]"
proof -
  assume n: "3 \<le> n"
  then have "[0..<n] = 0 # [1..<n]" by (simp add: upt_rec)
  moreover have "[1..<n] = [1..<n - 1] @ [n - 1]"
    using n upt_Suc_append [of 1 "n - 1"] by simp
  ultimately show ?thesis by simp
qed

lemma linear_slope_strict:
  assumes "sorted_wrt (<) L" "3 \<le> length V" "length V \<le> length L"
  shows "linear_slope V L = Inr (map (node_slope V L) [0..<length V])"
proof -
  define n where "n = length V"
  have r: "\<forall>k\<in>set [1..<n - 1]. 1 \<le> k \<and> k + 1 < length L"
    using assms by (auto simp: n_def)
  have m: "map (\<lambda>k. mid_slope (L ! k - L ! (k - 1)) (L ! (k + 1) - L ! k)
                     (secant V L (k - 1)) (secant V L k)) [1..<n - 1]
           = map (node_slope V L) [1..<n - 1]"
    by (rule map_cong) (auto simp: node_slope_def n_def Let_def)
  have "linear_slope V L = Inr (node_slope V L 0 # map (node_slope V L) [1..<n - 1]
            @ [node_slope V L (n - 1)])"
    unfolding linear_slope_def n_def [symmetric]
    using first_point_strict [OF assms] last_point_strict [OF assms]
      intermediate_points_strict [OF assms(1) r, of V] m
    by (simp add: n_def)
  then show ?thesis
    using upt_ends [of n] assms(2) by (simp add: n_def)
qed

lemma intermediate_points_length:
  "intermediate_points V L ks = Inr ss \<Longrightarrow>
     length ss = length ks \<and> (\<forall>k\<in>set ks. k + 1 < length L)"
proof (induction ks arbitrary: ss)
  case Nil
  then show ?case by simp
next
  case (Cons k ks)
  then show ?case
    by (auto simp: intermediate_point_def split: sum.splits if_splits)
qed

lemma linear_slope_shape:
  assumes "linear_slope V L = Inr slopes"
  shows "length slopes = length V \<and> 3 \<le> length V \<and> length V \<le> length L"
proof -
  from assms obtain s0 ss sl where
    f: "first_point V L = Inr s0" and
    i: "intermediate_points V L [1..<length V - 1] = Inr ss" and
    s: "slopes = s0 # ss @ [sl]"
    by (auto simp: linear_slope_def split: sum.splits)
  from f have n: "3 \<le> length V"
    by (auto simp: first_point_def Let_def split: if_splits)
  from intermediate_points_length [OF i]
  have l: "length ss = length V - 2" and b: "\<forall>k\<in>set [1..<length V - 1]. k + 1 < length L"
    by auto
  from n have "length V - 2 \<in> set [1..<length V - 1]" by auto
  with b have "length V - 2 + 1 < length L" by blast
  with n l s show ?thesis by auto
qed


subsection \<open>The forward cursor\<close>

lemma advance_step:
  "k < k_max \<Longrightarrow> L ! k < x \<Longrightarrow> advance L k_max k x = advance L k_max (k + 1) x"
  by (subst advance.simps) auto

lemma advance_stop:
  "k_max \<le> k \<or> \<not> L ! k < x \<Longrightarrow> advance L k_max k x = k"
  by (subst advance.simps) auto

lemma advance_eqI:
  assumes "c \<le> r" "r \<le> k_max"
    and "\<forall>j. c \<le> j \<and> j < r \<longrightarrow> L ! j < x"
    and "r < k_max \<longrightarrow> \<not> L ! r < x"
  shows "advance L k_max c x = r"
  using assms
proof (induction "r - c" arbitrary: c)
  case 0
  then have "c = r" by simp
  with "0.prems" have "k_max \<le> c \<or> \<not> L ! c < x" by auto
  then have "advance L k_max c x = c" by (rule advance_stop)
  with \<open>c = r\<close> show ?case by simp
next
  case (Suc n)
  then have lt: "c < r" by simp
  with Suc.prems have "c < k_max" "L ! c < x" by auto
  then have "advance L k_max c x = advance L k_max (c + 1) x" by (rule advance_step)
  also have "\<dots> = r"
  proof (rule Suc.hyps(1))
    show "n = r - (c + 1)" using Suc.hyps(2) by simp
    show "c + 1 \<le> r" using lt by simp
    show "r \<le> k_max" by (rule Suc.prems(2))
    show "\<forall>j. c + 1 \<le> j \<and> j < r \<longrightarrow> L ! j < x" using Suc.prems(3) by auto
    show "r < k_max \<longrightarrow> \<not> L ! r < x" by (rule Suc.prems(4))
  qed
  finally show ?case .
qed

lemma advance_props:
  assumes "c \<le> k_max"
  shows "c \<le> advance L k_max c x \<and> advance L k_max c x \<le> k_max
    \<and> (\<forall>j. c \<le> j \<and> j < advance L k_max c x \<longrightarrow> L ! j < x)
    \<and> (advance L k_max c x < k_max \<longrightarrow> \<not> L ! (advance L k_max c x) < x)"
  using assms
proof (induction L k_max c x rule: advance.induct)
  case (1 L k_max c x)
  show ?case
  proof (cases "c < k_max \<and> L ! c < x")
    case True
    from True have e: "advance L k_max c x = advance L k_max (c + 1) x"
      by (simp add: advance_step)
    from True have "c + 1 \<le> k_max" by simp
    from "1.IH" [OF True this] have ih:
      "c + 1 \<le> advance L k_max (c + 1) x" "advance L k_max (c + 1) x \<le> k_max"
      "\<forall>j. c + 1 \<le> j \<and> j < advance L k_max (c + 1) x \<longrightarrow> L ! j < x"
      "advance L k_max (c + 1) x < k_max \<longrightarrow> \<not> L ! (advance L k_max (c + 1) x) < x"
      by auto
    have "\<forall>j. c \<le> j \<and> j < advance L k_max (c + 1) x \<longrightarrow> L ! j < x"
    proof (intro allI impI)
      fix j assume j: "c \<le> j \<and> j < advance L k_max (c + 1) x"
      show "L ! j < x"
      proof (cases "j = c")
        case True with \<open>c < k_max \<and> L ! c < x\<close> show ?thesis by simp
      next
        case False with j ih(3) show ?thesis by auto
      qed
    qed
    with ih show ?thesis unfolding e by auto
  next
    case False
    then have "k_max \<le> c \<or> \<not> L ! c < x" by auto
    then have e: "advance L k_max c x = c" by (rule advance_stop)
    with False "1.prems" show ?thesis by auto
  qed
qed

lemma advance_from_start:
  assumes "c \<le> k_max" "\<forall>j<c. L ! j < x"
  shows "advance L k_max c x = advance L k_max 0 x"
proof -
  let ?r = "advance L k_max c x"
  from advance_props [OF assms(1), of L x] have p:
    "c \<le> ?r" "?r \<le> k_max" "\<forall>j. c \<le> j \<and> j < ?r \<longrightarrow> L ! j < x"
    "?r < k_max \<longrightarrow> \<not> L ! ?r < x" by auto
  have "advance L k_max 0 x = ?r"
  proof (rule advance_eqI)
    show "0 \<le> ?r" by simp
    show "?r \<le> k_max" by (rule p(2))
    show "\<forall>j. 0 \<le> j \<and> j < ?r \<longrightarrow> L ! j < x"
    proof (intro allI impI)
      fix j assume "0 \<le> j \<and> j < ?r"
      then show "L ! j < x" using p(3) assms(2) by (cases "j < c") auto
    qed
    show "?r < k_max \<longrightarrow> \<not> L ! ?r < x" by (rule p(4))
  qed
  then show ?thesis by simp
qed

text \<open>
  With output levels that do not decrease, the cursor kept from one output point to the
  next stands where a search from the first level would stand.
\<close>

lemma output_loop_sorted:
  assumes "sorted out_levels" "c \<le> length V" "\<forall>x\<in>set out_levels. \<forall>j<c. L ! j < x"
    and "output_loop V L slopes les grad c out_levels = Inr out"
  shows "length out = length out_levels \<and>
    (\<forall>i<length out_levels.
       output_point V L slopes les grad (advance L (length V) 0 (out_levels ! i)) (out_levels ! i)
         = Inr (out ! i))"
  using assms
proof (induction out_levels arbitrary: c out)
  case Nil
  then show ?case by simp
next
  case (Cons x xs)
  let ?r = "advance L (length V) c x"
  from Cons.prems(4) obtain y ys where
    y: "output_point V L slopes les grad ?r x = Inr y" and
    ys: "output_loop V L slopes les grad ?r xs = Inr ys" and
    out: "out = y # ys"
    by (auto simp: Let_def split: sum.splits)
  from Cons.prems(3) have below: "\<forall>j<c. L ! j < x" by simp
  have r0: "?r = advance L (length V) 0 x"
    by (rule advance_from_start [OF Cons.prems(2) below])
  from advance_props [OF Cons.prems(2), of L x] have p:
    "?r \<le> length V" "\<forall>j. c \<le> j \<and> j < ?r \<longrightarrow> L ! j < x" by auto
  have inv: "\<forall>x'\<in>set xs. \<forall>j<?r. L ! j < x'"
  proof (intro ballI allI impI)
    fix x' j assume x': "x' \<in> set xs" and j: "j < ?r"
    have "L ! j < x" using p(2) below j by (cases "j < c") auto
    moreover have "x \<le> x'" using Cons.prems(1) x' by simp
    ultimately show "L ! j < x'" by simp
  qed
  from Cons.prems(1) have "sorted xs" by simp
  from Cons.IH [OF this p(1) inv ys] have ih:
    "length ys = length xs"
    "\<forall>i<length xs. output_point V L slopes les grad (advance L (length V) 0 (xs ! i)) (xs ! i)
         = Inr (ys ! i)" by auto
  show ?case
  proof (intro conjI allI impI)
    show "length out = length (x # xs)" using out ih(1) by simp
  next
    fix i assume "i < length (x # xs)"
    then show "output_point V L slopes les grad
        (advance L (length V) 0 ((x # xs) ! i)) ((x # xs) ! i) = Inr (out ! i)"
      using y r0 ih(2) out by (cases i) auto
  qed
qed

text \<open>With strictly ascending levels no output point divides by zero.\<close>

lemma output_point_strict:
  assumes "sorted_wrt (<) L" "length V \<le> length L"
  shows "\<exists>y. output_point V L slopes les grad k x = Inr y"
proof (cases "0 < k \<and> k < length V")
  case True
  then have "L ! (k - 1) < L ! k" using assms by (intro strict_nth) auto
  with True show ?thesis by (simp add: output_point_def Let_def)
next
  case False
  then show ?thesis by (auto simp: output_point_def)
qed

lemma output_loop_strict:
  assumes "sorted_wrt (<) L" "length V \<le> length L"
  shows "\<exists>out. output_loop V L slopes les grad c out_levels = Inr out"
proof (induction out_levels arbitrary: c)
  case Nil
  then show ?case by simp
next
  case (Cons x xs)
  obtain y where "output_point V L slopes les grad (advance L (length V) c x) x = Inr y"
    using output_point_strict [OF assms] by blast
  moreover obtain ys where "output_loop V L slopes les grad (advance L (length V) c x) xs = Inr ys"
    using Cons.IH by blast
  ultimately show ?case by (simp add: Let_def)
qed

lemma steffen_column_strict:
  assumes "sorted_wrt (<) L" "3 \<le> length V" "length V \<le> length L"
  shows "\<exists>out. steffen_column V L out_levels les grad = Inr out"
  using linear_slope_strict [OF assms] output_loop_strict [OF assms(1,3)]
  by (simp add: steffen_column_def)

lemma steffen_column_sorted:
  assumes "steffen_column V L out_levels les grad = Inr out" "sorted out_levels"
  shows "\<exists>slopes. linear_slope V L = Inr slopes \<and> length out = length out_levels \<and>
    (\<forall>i<length out_levels.
       output_point V L slopes les grad (advance L (length V) 0 (out_levels ! i)) (out_levels ! i)
         = Inr (out ! i))"
proof -
  from assms(1) obtain slopes where s: "linear_slope V L = Inr slopes"
    and o: "output_loop V L slopes les grad 0 out_levels = Inr out"
    by (auto simp: steffen_column_def split: sum.splits)
  from output_loop_sorted [OF assms(2) _ _ o] s show ?thesis by simp
qed


subsection \<open>Node values and node derivatives\<close>




lemma if_merge: "(if a then x else if b then x else y) = (if a \<or> b then x else y)"
  by simp

lemma mid_slope_cases:
  "mid_slope dl dr sl sr =
     (if sl * sr \<le> 0 then 0
      else if \<bar>(sl * dr + sr * dl) / (dl + dr)\<bar> > 2 * \<bar>sl\<bar>
              \<or> \<bar>(sl * dr + sr * dl) / (dl + dr)\<bar> > 2 * \<bar>sr\<bar>
        then sgn sl * 2 * min \<bar>sl\<bar> \<bar>sr\<bar>
      else (sl * dr + sr * dl) / (dl + dr))"
proof (cases "sl * sr \<le> 0")
  case True
  then show ?thesis by (simp add: mid_slope_def Let_def)
next
  case False
  then have "sl \<noteq> 0" by auto
  then have c: "copysign 2 sl = sgn sl * 2" by (simp add: copysign_def sgn_if)
  define w where "w = (sl * dr + sr * dl) / (dl + dr)"
  have "mid_slope dl dr sl sr =
      (if \<bar>w\<bar> > 2 * \<bar>sl\<bar> then sgn sl * 2 * min \<bar>sl\<bar> \<bar>sr\<bar>
       else if \<bar>w\<bar> > 2 * \<bar>sr\<bar> then sgn sl * 2 * min \<bar>sl\<bar> \<bar>sr\<bar> else w)"
    using False unfolding mid_slope_def Let_def w_def [symmetric] c by (simp only: if_False)
  also have "\<dots> = (if \<bar>w\<bar> > 2 * \<bar>sl\<bar> \<or> \<bar>w\<bar> > 2 * \<bar>sr\<bar>
        then sgn sl * 2 * min \<bar>sl\<bar> \<bar>sr\<bar> else w)"
    by (rule if_merge)
  finally show ?thesis using False unfolding w_def by (simp only: if_False)
qed


subsection \<open>The loop over the levels\<close>

lemma level_step_total:
  assumes "k < length a_coeffs" and "k < length b_coeffs"
    and "k < length t_field" and "k < length q_field"
  shows "\<exists>st'. level_step p_s a_coeffs b_coeffs t_field q_field k st = Inr st'"
  using assms by (simp add: level_step_def Let_def)

lemma level_loop_total:
  assumes "n \<le> length a_coeffs" and "n \<le> length b_coeffs"
    and "n \<le> length t_field" and "n \<le> length q_field"
  shows "\<exists>st'. level_loop p_s a_coeffs b_coeffs t_field q_field n st = Inr st'"
  using assms
proof (induction n arbitrary: st)
  case 0
  show ?case by simp
next
  case (Suc n)
  then obtain st1 where
    "level_step p_s a_coeffs b_coeffs t_field q_field n st = Inr st1"
    using level_step_total [of n a_coeffs b_coeffs t_field q_field p_s st] by auto
  moreover from Suc obtain st2 where
    "level_loop p_s a_coeffs b_coeffs t_field q_field n st1 = Inr st2"
    by (metis Suc_leD)
  ultimately show ?case by simp
qed

lemma level_step_fields:
  assumes "level_step p_s a_coeffs b_coeffs t_field q_field k st = Inr st'"
  shows "p_h st' = (a_coeffs ! k + b_coeffs ! k * p_s) # p_h st"
    and "p_h_k_plus st' = a_coeffs ! k + b_coeffs ! k * p_s"
    and "\<exists>h. height_h st' = h # height_h st \<and> height_h_k_plus st' = h"
    and "tvrd_over_rg st' \<noteq> None"
  using assms by (auto simp: level_step_def Let_def split: if_splits)

lemma level_loop_fields:
  assumes "level_loop p_s a_coeffs b_coeffs t_field q_field n st = Inr st'"
  shows "p_h st' = map (\<lambda>k. a_coeffs ! k + b_coeffs ! k * p_s) [0..<n] @ p_h st
    \<and> (\<exists>hs. height_h st' = hs @ height_h st \<and> length hs = n)
    \<and> (0 < n \<or> tvrd_over_rg st \<noteq> None \<longrightarrow> tvrd_over_rg st' \<noteq> None)"
  using assms
proof (induction n arbitrary: st)
  case 0
  then show ?case by simp
next
  case (Suc n)
  from Suc.prems obtain st1 where
    s1: "level_step p_s a_coeffs b_coeffs t_field q_field n st = Inr st1" and
    l1: "level_loop p_s a_coeffs b_coeffs t_field q_field n st1 = Inr st'"
    by (auto split: sum.splits)
  note f = level_step_fields [OF s1]
  from Suc.IH [OF l1] obtain hs where
    p: "p_h st' = map (\<lambda>k. a_coeffs ! k + b_coeffs ! k * p_s) [0..<n] @ p_h st1" and
    h: "height_h st' = hs @ height_h st1" "length hs = n" and
    t: "tvrd_over_rg st' \<noteq> None"
    using f(4) by blast
  from f(3) obtain x where x: "height_h st1 = x # height_h st" by blast
  have "p_h st' = map (\<lambda>k. a_coeffs ! k + b_coeffs ! k * p_s) [0..<Suc n] @ p_h st"
    unfolding p f(1) by simp
  moreover have "height_h st' = (hs @ [x]) @ height_h st \<and> length (hs @ [x]) = Suc n"
    using h x by simp
  ultimately show ?case using t by blast
qed

lemma column_returns:
  assumes "2 \<le> length t_field"
    and "length t_field - 1 \<le> length a_coeffs"
    and "length t_field - 1 \<le> length b_coeffs"
    and "length t_field - 1 \<le> length q_field"
  obtains st tv where
    "level_loop p_s a_coeffs b_coeffs t_field q_field (length t_field - 1)
       \<lparr>height_h = [Some z_s], height_f = [], p_h = [p_s], p_f = [],
        height_h_k_plus = Some z_s, p_h_k_plus = p_s, tvrd_over_rg = None\<rparr> = Inr st"
    and "tvrd_over_rg st = Some tv"
    and "heights_and_pressures_column p_s z_s a_coeffs b_coeffs t_field q_field =
       Inr \<lparr>height_h = height_h st,
            height_f = integrate (height_h_k_plus st) tv
               (log_ratio (p_h_k_plus st) ((1 / 2) * p_h_k_plus st)) # height_f st,
            p_h = p_h st,
            p_f = ((1 / 2) * p_h_k_plus st) # p_f st\<rparr>"
proof -
  let ?st0 = "\<lparr>height_h = [Some z_s], height_f = [], p_h = [p_s], p_f = [],
        height_h_k_plus = Some z_s, p_h_k_plus = p_s, tvrd_over_rg = None\<rparr>"
  from assms have "length t_field - 1 \<le> length t_field" by simp
  from level_loop_total [OF assms(2,3) this assms(4)] obtain st where
    st: "level_loop p_s a_coeffs b_coeffs t_field q_field (length t_field - 1) ?st0 = Inr st"
    by blast
  from level_loop_fields [OF st] assms(1) obtain tv where tv: "tvrd_over_rg st = Some tv"
    by auto
  from assms(1) have "length t_field \<noteq> 0" by auto
  with st tv have "heights_and_pressures_column p_s z_s a_coeffs b_coeffs t_field q_field =
       Inr \<lparr>height_h = height_h st,
            height_f = integrate (height_h_k_plus st) tv
               (log_ratio (p_h_k_plus st) ((1 / 2) * p_h_k_plus st)) # height_f st,
            p_h = p_h st,
            p_f = ((1 / 2) * p_h_k_plus st) # p_f st\<rparr>"
    by (simp add: heights_and_pressures_column_def Let_def)
  with st tv that show thesis by blast
qed

lemma level_step_isothermal:
  assumes s: "level_step p_s a_coeffs b_coeffs t_field q_field k st = Inr st'"
    and t: "t_field ! k = t" and q: "q_field ! k = 0"
    and pos: "0 < a_coeffs ! k + b_coeffs ! k * p_s" and p0: "0 < p0"
    and plus: "0 < p_h_k_plus st"
    and h: "height_h_k_plus st = isothermal_height t p0 (p_h_k_plus st)"
  shows "height_h_k_plus st' = isothermal_height t p0 (a_coeffs ! k + b_coeffs ! k * p_s)"
proof -
  let ?p = "a_coeffs ! k + b_coeffs ! k * p_s"
  let ?q = "p_h_k_plus st"
  from s have "height_h_k_plus st' =
      integrate (height_h_k_plus st) ((rd / rg) * t_field ! k * (1 + rv_over_rd_minus_one * q_field ! k))
        (log_ratio ?q ?p)"
    by (auto simp: level_step_def Let_def split: if_splits)
  also have "log_ratio ?q ?p = Some (ln (?q / ?p))"
  proof -
    from pos plus have "0 < ?q / ?p" by (rule divide_pos_pos [OF _ _, rotated])
    with pos show ?thesis by (simp add: log_ratio_def not_le)
  qed
  also have "integrate (height_h_k_plus st)
       ((rd / rg) * t_field ! k * (1 + rv_over_rd_minus_one * q_field ! k)) (Some (ln (?q / ?p)))
     = Some ((rd * t / rg) * ln (p0 / ?q) + (rd * t / rg) * ln (?q / ?p))"
    unfolding h t q by (simp add: integrate_def isothermal_height_def)
  also have "(rd * t / rg) * ln (p0 / ?q) + (rd * t / rg) * ln (?q / ?p)
     = (rd * t / rg) * (ln (p0 / ?q) + ln (?q / ?p))"
    by (simp only: distrib_left)
  also from pos plus p0 have "ln (p0 / ?q) + ln (?q / ?p) = ln (p0 / ?p)"
    by (simp add: ln_div)
  finally show ?thesis by (simp only: isothermal_height_def)
qed

lemma level_loop_isothermal:
  assumes "level_loop p_s a_coeffs b_coeffs t_field q_field n st = Inr st'"
    and "\<forall>k<n. t_field ! k = t \<and> q_field ! k = 0"
    and "\<forall>k<n. 0 < a_coeffs ! k + b_coeffs ! k * p_s"
    and "0 < p0" and "0 < p_h_k_plus st"
    and "height_h_k_plus st = isothermal_height t p0 (p_h_k_plus st)"
    and "list_all2 (\<lambda>h p. 0 < p \<and> h = isothermal_height t p0 p) (height_h st) (p_h st)"
  shows "list_all2 (\<lambda>h p. 0 < p \<and> h = isothermal_height t p0 p) (height_h st') (p_h st')"
  using assms
proof (induction n arbitrary: st)
  case 0
  then show ?case by simp
next
  case (Suc n)
  from Suc.prems(1) obtain st1 where
    s1: "level_step p_s a_coeffs b_coeffs t_field q_field n st = Inr st1" and
    l1: "level_loop p_s a_coeffs b_coeffs t_field q_field n st1 = Inr st'"
    by (auto split: sum.splits)
  let ?p = "a_coeffs ! n + b_coeffs ! n * p_s"
  from Suc.prems(2) have tq: "t_field ! n = t" "q_field ! n = 0" by simp_all
  from Suc.prems(3) have pos: "0 < ?p" by simp
  note f = level_step_fields [OF s1]
  have hk: "height_h_k_plus st1 = isothermal_height t p0 ?p"
    by (rule level_step_isothermal [OF s1 tq pos Suc.prems(4,5,6)])
  from f(3) hk have hh: "height_h st1 = isothermal_height t p0 ?p # height_h st" by auto
  show ?case
  proof (rule Suc.IH [OF l1])
    show "\<forall>k<n. t_field ! k = t \<and> q_field ! k = 0" using Suc.prems(2) by simp
    show "\<forall>k<n. 0 < a_coeffs ! k + b_coeffs ! k * p_s" using Suc.prems(3) by simp
    show "0 < p0" by (rule Suc.prems(4))
    show "0 < p_h_k_plus st1" unfolding f(2) by (rule pos)
    show "height_h_k_plus st1 = isothermal_height t p0 (p_h_k_plus st1)"
      unfolding f(2) by (rule hk)
    show "list_all2 (\<lambda>h p. 0 < p \<and> h = isothermal_height t p0 p) (height_h st1) (p_h st1)"
      unfolding hh f(1) using pos Suc.prems(7) by simp
  qed
qed

section \<open>The claims\<close>

text \<open>
  C1. The claim: a call of \<^verbatim>\<open>steffen_3d\<close> on a column whose levels have a negative
  difference between any two adjacent levels raises the monotonicity error before it
  produces output values for that column. The source compares only the first two
  differences with zero (lines 145--148); the loop over the intermediate points and the
  last point compute their differences and never test them. Here the levels
  \<open>0, 1, 3, 2\<close> descend from index 2 to index 3 and the call returns values.
\<close>

theorem steffen_later_descent_not_raised:
  "steffen_column [0, 1, 2, 3] [0, 1, 3, 2] [1 / 2, 5 / 2] 0 False
     = Inr [Some (13 / 24), Some (123 / 64)]"
  by (simp add: steffen_eval)

text \<open>
  C2, as stated, fails on output coordinates that are not in ascending order: the
  cursor \<^verbatim>\<open>k_temp\<close> only moves forward (lines 214--219). After the output \<open>600\<close>, above
  the last level, the cursor stands at \<open>k_max\<close>; the next output \<open>- 5\<close> lies below the
  first level \<open>0\<close> and above the boundary \<open>- 10\<close>, the gradient flag is off, and the
  result is NaN, not the first value \<open>10\<close>.
\<close>

theorem boundary_policy_unsorted_outputs:
  "(- 5 :: real) < 0 \<and> (- 10 :: real) \<le> - 5
     \<and> steffen_column [10, 12, 9] [0, 100, 500] [600, - 5] (- 10) False = Inr [None, None]"
  by (simp add: steffen_eval)

text \<open>
  C2, amended: on a column of at least three strictly ascending levels and for output
  coordinates in non-decreasing order, the call returns, and every output coordinate
  below the first level gets NaN when it is below the boundary, the first value when it
  is at or above the boundary and the flag is off, the first value plus the first
  derivative times the offset when the flag is on; every output coordinate above the
  last level gets NaN.
\<close>

theorem boundary_policy:
  assumes "sorted_wrt (<) L" and "3 \<le> length V" and "length L = length V"
    and "sorted out_levels" and "i < length out_levels"
  shows "\<exists>out slopes. steffen_column V L out_levels les grad = Inr out \<and>
    linear_slope V L = Inr slopes \<and>
    (out_levels ! i < L ! 0 \<and> out_levels ! i < les \<longrightarrow> out ! i = None) \<and>
    (out_levels ! i < L ! 0 \<and> les \<le> out_levels ! i \<and> \<not> grad \<longrightarrow> out ! i = Some (V ! 0)) \<and>
    (out_levels ! i < L ! 0 \<and> les \<le> out_levels ! i \<and> grad \<longrightarrow>
       out ! i = Some (V ! 0 + slopes ! 0 * (out_levels ! i - L ! 0))) \<and>
    (L ! (length V - 1) < out_levels ! i \<longrightarrow> out ! i = None)"
proof -
  let ?x = "out_levels ! i"
  from assms(3) have le: "length V \<le> length L" by simp
  from steffen_column_strict [OF assms(1,2) le] obtain out where
    out: "steffen_column V L out_levels les grad = Inr out" by blast
  from steffen_column_sorted [OF out assms(4)] assms(5) obtain slopes where
    s: "linear_slope V L = Inr slopes" and
    o: "output_point V L slopes les grad (advance L (length V) 0 ?x) ?x = Inr (out ! i)"
    by blast
  have below: "out ! i = (if les \<le> ?x then
        (if grad then Some (V ! 0 + slopes ! 0 * (?x - L ! 0)) else Some (V ! 0)) else None)"
    if "?x < L ! 0"
  proof -
    from that have "advance L (length V) 0 ?x = 0" by (intro advance_stop) simp
    with o show ?thesis by (auto simp: output_point_def split: if_splits)
  qed
  have above: "out ! i = None" if "L ! (length V - 1) < ?x"
  proof -
    have "advance L (length V) 0 ?x = length V"
    proof (rule advance_eqI)
      show "\<forall>j. 0 \<le> j \<and> j < length V \<longrightarrow> L ! j < ?x"
      proof (intro allI impI)
        fix j assume j: "0 \<le> j \<and> j < length V"
        have "L ! j \<le> L ! (length V - 1)"
        proof (cases "j = length V - 1")
          case False
          with j le have "L ! j < L ! (length V - 1)"
            by (intro strict_nth [OF assms(1)]) auto
          then show ?thesis by simp
        qed simp
        with that show "L ! j < ?x" by simp
      qed
    qed simp_all
    with o assms(2) show ?thesis by (auto simp: output_point_def split: if_splits)
  qed
  from out s below above show ?thesis by auto
qed

theorem boundary_policy_witness:
  "\<exists>out. steffen_column [10, 12, 9] [0, 100, 500] [- 20, - 5, 600] (- 10) False = Inr out
     \<and> out ! 1 = Some 10"
  using boundary_policy [where L = "[0, 100, 500]" and V = "[10, 12, 9]"
      and out_levels = "[- 20, - 5, 600]" and i = 1 and les = "- 10" and grad = False]
  by auto







text \<open>
  C5. On a column of at least three strictly ascending levels the derivatives are
  computed, and the derivative at an interior node \<open>k\<close> is \<open>0\<close> when the product of the
  left and the right slope is at most \<open>0\<close>; else it is
  \<open>sign(slope_left) * 2 * min(|slope_left|, |slope_right|)\<close> when the weighted slope
  exceeds twice the size of either slope; else it is the weighted slope.
\<close>

theorem interior_derivative:
  assumes "sorted_wrt (<) L" and "3 \<le> length V" and "length L = length V"
    and "1 \<le> k" and "k \<le> length V - 2"
  shows "\<exists>slopes. linear_slope V L = Inr slopes \<and> slopes ! k =
    (let delta_left = L ! k - L ! (k - 1);
         delta_right = L ! (k + 1) - L ! k;
         slope_left = (V ! k - V ! (k - 1)) / delta_left;
         slope_right = (V ! (k + 1) - V ! k) / delta_right;
         weighted = (slope_left * delta_right + slope_right * delta_left)
                      / (delta_left + delta_right)
     in if slope_left * slope_right \<le> 0 then 0
        else if \<bar>weighted\<bar> > 2 * \<bar>slope_left\<bar> \<or> \<bar>weighted\<bar> > 2 * \<bar>slope_right\<bar>
          then sgn slope_left * 2 * min \<bar>slope_left\<bar> \<bar>slope_right\<bar>
        else weighted)"
proof -
  from assms(3) have le: "length V \<le> length L" by simp
  have s: "linear_slope V L = Inr (map (node_slope V L) [0..<length V])"
    by (rule linear_slope_strict [OF assms(1,2) le])
  from assms(2,4,5) have k: "k \<noteq> 0" "k \<noteq> length V - 1" "k < length V" "k - 1 + 1 = k"
    by auto
  from k(1,2) have "node_slope V L k =
      mid_slope (L ! k - L ! (k - 1)) (L ! (k + 1) - L ! k) (secant V L (k - 1)) (secant V L k)"
    by (simp add: node_slope_def Let_def)
  also have "secant V L (k - 1) = (V ! k - V ! (k - 1)) / (L ! k - L ! (k - 1))"
    unfolding secant_def k(4) by (rule refl)
  also have "secant V L k = (V ! (k + 1) - V ! k) / (L ! (k + 1) - L ! k)"
    unfolding secant_def by (rule refl)
  finally have n: "node_slope V L k =
      mid_slope (L ! k - L ! (k - 1)) (L ! (k + 1) - L ! k)
        ((V ! k - V ! (k - 1)) / (L ! k - L ! (k - 1)))
        ((V ! (k + 1) - V ! k) / (L ! (k + 1) - L ! k))" .
  have "map (node_slope V L) [0..<length V] ! k = node_slope V L k"
    using k(3) by simp
  with s n show ?thesis
    unfolding Let_def by (simp only: mid_slope_cases) blast
qed

theorem interior_derivative_witness:
  "\<exists>slopes. linear_slope [0, 1, 4, 9] [0, 1, 2, 3] = Inr slopes \<and> slopes ! 1 = 2
     \<and> slopes ! 2 = 4"
  using interior_derivative [where L = "[0, 1, 2, 3]" and V = "[0, 1, 4, 9]" and k = 1]
    interior_derivative [where L = "[0, 1, 2, 3]" and V = "[0, 1, 4, 9]" and k = 2]
  by (auto simp: Let_def)

text \<open>
  C6. On a column of at least two levels, with coefficients and humidities for every
  level above the surface, the call returns; the half-level pressure at the surface
  index \<open>K - 1\<close> is the surface pressure and the half-level height there is the surface
  height.
\<close>

theorem surface_boundary_fidelity:
  assumes "2 \<le> length t_field"
    and "length t_field - 1 \<le> length a_coeffs"
    and "length t_field - 1 \<le> length b_coeffs"
    and "length t_field - 1 \<le> length q_field"
  shows "\<exists>res. heights_and_pressures_column p_s z_s a_coeffs b_coeffs t_field q_field = Inr res
    \<and> length (p_h res) = length t_field
    \<and> length (height_h res) = length t_field
    \<and> p_h res ! (length t_field - 1) = p_s
    \<and> height_h res ! (length t_field - 1) = Some z_s"
proof -
  from column_returns [OF assms, of p_s z_s] obtain st tv where
    st: "level_loop p_s a_coeffs b_coeffs t_field q_field (length t_field - 1)
       \<lparr>height_h = [Some z_s], height_f = [], p_h = [p_s], p_f = [],
        height_h_k_plus = Some z_s, p_h_k_plus = p_s, tvrd_over_rg = None\<rparr> = Inr st"
    and res: "heights_and_pressures_column p_s z_s a_coeffs b_coeffs t_field q_field =
       Inr \<lparr>height_h = height_h st,
            height_f = integrate (height_h_k_plus st) tv
               (log_ratio (p_h_k_plus st) ((1 / 2) * p_h_k_plus st)) # height_f st,
            p_h = p_h st,
            p_f = ((1 / 2) * p_h_k_plus st) # p_f st\<rparr>"
    by blast
  from level_loop_fields [OF st] obtain hs where
    p: "p_h st = map (\<lambda>k. a_coeffs ! k + b_coeffs ! k * p_s) [0..<length t_field - 1] @ [p_s]"
    and h: "height_h st = hs @ [Some z_s]" "length hs = length t_field - 1"
    by auto
  from assms(1) have "length (p_h st) = length t_field" unfolding p by simp
  moreover from assms(1) h have "length (height_h st) = length t_field" by simp
  moreover have "p_h st ! (length t_field - 1) = p_s"
    unfolding p by (simp add: nth_append)
  moreover have "height_h st ! (length t_field - 1) = Some z_s"
    using h by (simp add: nth_append)
  ultimately show ?thesis using res by simp
qed

theorem surface_boundary_fidelity_witness:
  "\<exists>res. heights_and_pressures_column 100000 12 [2000, 7000, 0] [0, 1 / 2, 1]
       [250, 260, 270] [0, 1 / 1000, 1 / 100] = Inr res
    \<and> p_h res ! 2 = 100000 \<and> height_h res ! 2 = Some 12"
  using surface_boundary_fidelity [of "[250, 260, 270]" "[2000, 7000, 0]" "[0, 1 / 2, 1]"
    "[0, 1 / 1000, 1 / 100]" 100000 12]
  by (auto simp: numeral_2_eq_2)

text \<open>
  C7. On a column of constant temperature \<open>250\<close> K and humidity \<open>0\<close>, with surface pressure
  \<open>100000\<close> Pa and surface height \<open>0\<close> m, whose half-level pressures are positive, the
  height of every half level is \<open>(rd * 250 / rg) * ln (100000 / p)\<close>, where \<open>p\<close> is the
  pressure of that half level.
\<close>

theorem isothermal_heights:
  assumes "2 \<le> K"
    and "K - 1 \<le> length a_coeffs" and "K - 1 \<le> length b_coeffs"
    and "\<forall>k<K - 1. 0 < a_coeffs ! k + b_coeffs ! k * 100000"
  shows "\<exists>res. heights_and_pressures_column 100000 0 a_coeffs b_coeffs
                 (replicate K 250) (replicate K 0) = Inr res
    \<and> length (p_h res) = K \<and> length (height_h res) = K
    \<and> (\<forall>k<K. 0 < p_h res ! k
          \<and> height_h res ! k = Some ((rd * 250 / rg) * ln (100000 / p_h res ! k)))"
proof -
  let ?t = "replicate K (250::real)" and ?q = "replicate K (0::real)"
  let ?st0 = "\<lparr>height_h = [Some 0], height_f = [], p_h = [100000], p_f = [],
        height_h_k_plus = Some 0, p_h_k_plus = 100000, tvrd_over_rg = None\<rparr>"
  have len: "length ?t = K" by simp
  from assms(1,2,3) have pre: "2 \<le> length ?t" "length ?t - 1 \<le> length a_coeffs"
    "length ?t - 1 \<le> length b_coeffs" "length ?t - 1 \<le> length ?q"
    by simp_all
  from column_returns [OF pre, of 100000 0] obtain st tv where
    st: "level_loop 100000 a_coeffs b_coeffs ?t ?q (length ?t - 1) ?st0 = Inr st"
    and res: "heights_and_pressures_column 100000 0 a_coeffs b_coeffs ?t ?q =
       Inr \<lparr>height_h = height_h st,
            height_f = integrate (height_h_k_plus st) tv
               (log_ratio (p_h_k_plus st) ((1 / 2) * p_h_k_plus st)) # height_f st,
            p_h = p_h st,
            p_f = ((1 / 2) * p_h_k_plus st) # p_f st\<rparr>"
    by blast
  from st have st': "level_loop 100000 a_coeffs b_coeffs ?t ?q (K - 1) ?st0 = Inr st"
    by (simp only: len)
  have inv: "list_all2 (\<lambda>h p. 0 < p \<and> h = isothermal_height 250 100000 p)
      (height_h st) (p_h st)"
  proof (rule level_loop_isothermal [OF st'])
    show "\<forall>k<K - 1. ?t ! k = 250 \<and> ?q ! k = 0" by simp
    show "\<forall>k<K - 1. 0 < a_coeffs ! k + b_coeffs ! k * 100000" by (rule assms(4))
    show "0 < (100000::real)" by simp
    show "0 < p_h_k_plus ?st0" by simp
    show "height_h_k_plus ?st0 = isothermal_height 250 100000 (p_h_k_plus ?st0)"
      by (simp add: isothermal_height_def)
    show "list_all2 (\<lambda>h p. 0 < p \<and> h = isothermal_height 250 100000 p)
      (height_h ?st0) (p_h ?st0)"
      by (simp add: isothermal_height_def)
  qed
  from level_loop_fields [OF st'] assms(1) have lp: "length (p_h st) = K" by auto
  from inv have lh: "length (height_h st) = length (p_h st)"
    by (rule list_all2_lengthD)
  have "\<forall>k<K. 0 < p_h st ! k
      \<and> height_h st ! k = Some ((rd * 250 / rg) * ln (100000 / p_h st ! k))"
  proof (intro allI impI)
    fix k assume "k < K"
    with lp lh have "k < length (height_h st)" by simp
    from list_all2_nthD [OF inv this]
    show "0 < p_h st ! k
      \<and> height_h st ! k = Some ((rd * 250 / rg) * ln (100000 / p_h st ! k))"
      by (simp add: isothermal_height_def)
  qed
  with res lp lh show ?thesis by simp
qed

theorem isothermal_heights_witness:
  "\<exists>res. heights_and_pressures_column 100000 0 [20000, 50000] [0, 0]
       [250, 250, 250] [0, 0, 0] = Inr res
    \<and> p_h res ! 0 = 20000
    \<and> height_h res ! 0 = Some ((rd * 250 / rg) * ln (100000 / p_h res ! 0))"
proof -
  have r: "replicate 3 (250::real) = [250, 250, 250]" "replicate 3 (0::real) = [0, 0, 0]"
    by (simp_all add: numeral_3_eq_3)
  have "\<forall>k<3 - 1. 0 < [20000, 50000::real] ! k + [0, 0] ! k * 100000"
    by (simp add: less_Suc_eq numeral_2_eq_2 numeral_3_eq_3)
  from isothermal_heights [of 3 "[20000, 50000]" "[0, 0]", OF _ _ _ this]
  obtain res where
    res: "heights_and_pressures_column 100000 0 [20000, 50000] [0, 0]
       [250, 250, 250] [0, 0, 0] = Inr res"
    and h: "\<forall>k<3. 0 < p_h res ! k
          \<and> height_h res ! k = Some ((rd * 250 / rg) * ln (100000 / p_h res ! k))"
    unfolding r by auto
  from res have "p_h res ! 0 = 20000"
    by (auto simp: hydro_eval numeral_2_eq_2)
  with res h show ?thesis by auto
qed

text \<open>
  C8, as stated, fails: the half-level pressures are those of the coefficients, which
  the source reads from a table and hands to the function. With the coefficients
  \<open>a = 2000, 7000, 0\<close> and \<open>b = 0, 1 / 2, 1\<close> (\<open>b\<close> ascending, the last row that of the
  surface), temperature \<open>250\<close> K, humidity \<open>0\<close> and the positive surface pressure
  \<open>1000\<close> Pa, the half-level pressures are \<open>2000, 7500, 1000\<close>: the last one is below
  the one above it.
\<close>

theorem half_pressure_not_monotonic:
  "map_sum id p_h (heights_and_pressures_column 1000 0 [2000, 7000, 0] [0, 1 / 2, 1]
       [250, 250, 250] [0, 0, 0]) = Inr [2000, 7500, 1000]
    \<and> \<not> sorted [2000, 7500, 1000 :: real]"
  by (simp add: hydro_eval numeral_2_eq_2)

text \<open>
  C8, amended: the half-level pressures are \<open>a[k] + b[k] * p_surf\<close> for \<open>k < K - 1\<close> and
  \<open>p_surf\<close> at \<open>K - 1\<close>, whatever the temperatures and the humidities are; they are
  non-decreasing from the top to the surface exactly when
  \<open>a[k] + b[k] * p_surf \<le> a[k + 1] + b[k + 1] * p_surf\<close> for every \<open>k < K - 2\<close> and
  \<open>a[K - 2] + b[K - 2] * p_surf \<le> p_surf\<close>.
\<close>

theorem half_level_pressures:
  assumes "2 \<le> length t_field"
    and "length t_field - 1 \<le> length a_coeffs"
    and "length t_field - 1 \<le> length b_coeffs"
    and "length t_field - 1 \<le> length q_field"
  shows "\<exists>res. heights_and_pressures_column p_s z_s a_coeffs b_coeffs t_field q_field = Inr res
    \<and> p_h res = map (\<lambda>k. a_coeffs ! k + b_coeffs ! k * p_s) [0..<length t_field - 1] @ [p_s]
    \<and> (sorted (p_h res) \<longleftrightarrow>
         (\<forall>k. k + 2 < length t_field \<longrightarrow>
            a_coeffs ! k + b_coeffs ! k * p_s \<le> a_coeffs ! (k + 1) + b_coeffs ! (k + 1) * p_s)
         \<and> a_coeffs ! (length t_field - 2) + b_coeffs ! (length t_field - 2) * p_s \<le> p_s)"
proof -
  let ?n = "length t_field - 1"
  let ?f = "\<lambda>k. a_coeffs ! k + b_coeffs ! k * p_s"
  from column_returns [OF assms, of p_s z_s] obtain st tv where
    st: "level_loop p_s a_coeffs b_coeffs t_field q_field ?n
       \<lparr>height_h = [Some z_s], height_f = [], p_h = [p_s], p_f = [],
        height_h_k_plus = Some z_s, p_h_k_plus = p_s, tvrd_over_rg = None\<rparr> = Inr st"
    and res: "heights_and_pressures_column p_s z_s a_coeffs b_coeffs t_field q_field =
       Inr \<lparr>height_h = height_h st,
            height_f = integrate (height_h_k_plus st) tv
               (log_ratio (p_h_k_plus st) ((1 / 2) * p_h_k_plus st)) # height_f st,
            p_h = p_h st,
            p_f = ((1 / 2) * p_h_k_plus st) # p_f st\<rparr>"
    by blast
  from level_loop_fields [OF st] have p: "p_h st = map ?f [0..<?n] @ [p_s]" by simp
  let ?xs = "map ?f [0..<?n] @ [p_s]"
  have len: "length ?xs = ?n + 1" by simp
  have nth_lo: "?xs ! i = ?f i" if "i < ?n" for i
    using that by (simp add: nth_append)
  have nth_hi: "?xs ! ?n = p_s" by (simp add: nth_append)
  have "sorted ?xs \<longleftrightarrow>
      (\<forall>k. k + 2 < length t_field \<longrightarrow> ?f k \<le> ?f (k + 1)) \<and> ?f (length t_field - 2) \<le> p_s"
  proof
    assume s: "sorted ?xs"
    have a: "?xs ! i \<le> ?xs ! Suc i" if "Suc i < length ?xs" for i
      using s that by (simp only: sorted_iff_nth_Suc)
    have "\<forall>k. k + 2 < length t_field \<longrightarrow> ?f k \<le> ?f (k + 1)"
    proof (intro allI impI)
      fix k assume k: "k + 2 < length t_field"
      then have "Suc k < length ?xs" "k < ?n" "k + 1 < ?n" by simp_all
      from a [OF this(1)] nth_lo [OF this(2)] nth_lo [OF this(3)]
      show "?f k \<le> ?f (k + 1)" by simp
    qed
    moreover have "?f (length t_field - 2) \<le> p_s"
    proof -
      from assms(1) have i: "Suc (length t_field - 2) < length ?xs"
        "length t_field - 2 < ?n" "Suc (length t_field - 2) = ?n"
        by simp_all
      from a [OF i(1)] nth_lo [OF i(2)] nth_hi i(3) show ?thesis by simp
    qed
    ultimately show "(\<forall>k. k + 2 < length t_field \<longrightarrow> ?f k \<le> ?f (k + 1))
      \<and> ?f (length t_field - 2) \<le> p_s" by blast
  next
    assume c: "(\<forall>k. k + 2 < length t_field \<longrightarrow> ?f k \<le> ?f (k + 1))
      \<and> ?f (length t_field - 2) \<le> p_s"
    have "?xs ! i \<le> ?xs ! Suc i" if i: "Suc i < length ?xs" for i
    proof (cases "Suc i = ?n")
      case True
      with assms(1) have e: "i = length t_field - 2" "i < ?n" by simp_all
      from c e(1) have "?f i \<le> p_s" by simp
      with nth_lo [OF e(2)] nth_hi True show ?thesis by simp
    next
      case False
      with i have e: "i < ?n" "i + 1 < ?n" "i + 2 < length t_field" by simp_all
      from c e(3) have "?f i \<le> ?f (i + 1)" by blast
      with nth_lo [OF e(1)] nth_lo [OF e(2)] show ?thesis by simp
    qed
    then show "sorted ?xs" by (simp only: sorted_iff_nth_Suc) blast
  qed
  with res p show ?thesis by simp
qed

theorem half_level_pressures_witness:
  "\<exists>res. heights_and_pressures_column 100000 0 [2000, 7000, 0] [0, 1 / 2, 1]
       [250, 260, 270] [0, 1 / 1000, 1 / 100] = Inr res
    \<and> p_h res = [2000, 57000, 100000] \<and> sorted (p_h res)"
  using half_level_pressures [of "[250, 260, 270]" "[2000, 7000, 0]" "[0, 1 / 2, 1]"
    "[0, 1 / 1000, 1 / 100]" 100000 0]
  by (auto simp: numeral_2_eq_2 upt_rec)

text \<open>
  C9, as stated, fails: the lowest half-level height \<open>1 / 2000000\<close> m lies in the open
  interval from 0 to 5 m and the land-sea fraction \<open>0.05\<close> is below \<open>0.2\<close>, and the
  boundary stays at the height: the source asks for a height above \<open>10\<^sup>-\<^sup>6\<close> m
  (line 338). The output height \<open>0\<close> is then below the boundary, and every variable
  gets NaN there.
\<close>

theorem sea_mask_small_height:
  "(0::real) < 1 / 2000000 \<and> (1 / 2000000 :: real) < 5 \<and> (5 / 100 :: real) < 2 / 10
     \<and> lower_extrapolation_with_mask (1 / 2000000) (5 / 100) = 1 / 2000000
     \<and> remap_time_step
          \<lparr>variables = [(''height_f'', [[300, 100, 10]]),
                        (''height_h'', [[200, 50, 1 / 2000000]]),
                        (''t'', [[280, 285, 290]])],
           lsm = [5 / 100]\<rparr> [0]
        = Inr [(''height_f'', [[None]]), (''height_h'', [[None]]), (''t'', [[None]])]"
  by (simp add: remap_eval)

text \<open>
  C9, amended. At one time index the columns of every variable are interpolated with
  the list of boundaries that has, for each horizontal point, the last entry \<open>h\<close> of its
  column of \<^verbatim>\<open>height_h\<close> (the lowest half level), replaced by \<open>- 10\<^sup>-\<^sup>6\<close> exactly when
  \<open>10\<^sup>-\<^sup>6 < h < 5\<close> and the land-sea fraction of the point is below \<open>0.2\<close>. A point
  with \<open>h = 2\<close> and fraction \<open>0.05\<close> gets the negative boundary: at the output height
  \<open>0\<close> the temperature is that of the lowest full level, \<open>290\<close>.
\<close>

theorem lower_extrapolation_boundary:
  assumes "map_of (variables ds) ''height_f'' = Some hf"
    and "map_of (variables ds) ''height_h'' = Some hh"
    and "[] \<notin> set hh"
  shows "remap_time_step ds heights_array =
      remap_variables (map rev hf) (map rev hh)
        (map (\<lambda>(col, l). if 1 / 10 ^ 6 < last col \<and> last col < 5 \<and> l < 2 / 10
                          then - (1 / 10 ^ 6) else last col)
           (zip hh (lsm ds)))
        heights_array (variables ds)
    \<and> era5_on_height_levels
        [\<lparr>variables = [(''height_f'', [[300, 100, 10]]),
                       (''height_h'', [[200, 50, 2]]),
                       (''t'', [[280, 285, 290]])],
          lsm = [5 / 100]\<rparr>] (FloatArray [0])
      = Inr [[(''height_f'', [[Some 0]]), (''height_h'', [[Some 0]]), (''t'', [[Some 290]])]]"
proof
  have "(\<lambda>(col, l). lower_extrapolation_with_mask (last col) l)
      = (\<lambda>(col, l). if 1 / 10 ^ 6 < last col \<and> last col < 5 \<and> l < 2 / 10
                      then - (1 / 10 ^ 6) else last col)"
    by (auto simp: fun_eq_iff lower_extrapolation_with_mask_def sea_mask_def)
  with assms show "remap_time_step ds heights_array =
      remap_variables (map rev hf) (map rev hh)
        (map (\<lambda>(col, l). if 1 / 10 ^ 6 < last col \<and> last col < 5 \<and> l < 2 / 10
                          then - (1 / 10 ^ 6) else last col)
           (zip hh (lsm ds)))
        heights_array (variables ds)"
    by (simp add: remap_time_step_def Let_def)
next
  show "era5_on_height_levels
        [\<lparr>variables = [(''height_f'', [[300, 100, 10]]),
                       (''height_h'', [[200, 50, 2]]),
                       (''t'', [[280, 285, 290]])],
          lsm = [5 / 100]\<rparr>] (FloatArray [0])
      = Inr [[(''height_f'', [[Some 0]]), (''height_h'', [[Some 0]]), (''t'', [[Some 290]])]]"
    by (simp add: era5_on_height_levels_def remap_eval)
qed

theorem lower_extrapolation_boundary_witness:
  "remap_time_step
      \<lparr>variables = [(''height_f'', [[300, 100, 10]]),
                    (''height_h'', [[200, 50, 2]]),
                    (''t'', [[280, 285, 290]])],
       lsm = [9 / 10]\<rparr> [0, 5]
    = Inr [(''height_f'', [[None, Some 5]]), (''height_h'', [[None, Some 5]]),
           (''t'', [[None, Some 290]])]"
  using lower_extrapolation_boundary [of
      "\<lparr>variables = [(''height_f'', [[300, 100, 10]]),
                    (''height_h'', [[200, 50, 2]]),
                    (''t'', [[280, 285, 290]])],
       lsm = [9 / 10]\<rparr>" "[[300, 100, 10]]" "[[200, 50, 2]]" "[0, 5]"]
  by (simp add: steffen_eval)

text \<open>
  C10. A heights array of integers with a first element makes \<^verbatim>\<open>era5_on_height_levels\<close>
  raise its exception, and nothing is remapped; with an array of floats the test passes
  and the result is that of the remapping.
\<close>

theorem heights_must_be_float:
  "era5_on_height_levels ds (IntArray (h # hs)) = Inl HeightsNotFloat
   \<and> era5_on_height_levels ds (FloatArray (x # xs)) = remap_time_steps ds (x # xs)"
  by (simp add: era5_on_height_levels_def)


end
